theory Spec2Isabelle
  imports Complex_Main "HOL-Library.Sublist"
begin

section \<open>JavaScript values\<close>

text \<open>
  The agent's reply is untyped (\<^verbatim>\<open>result: any\<close>): at run time every value the page
  handles is a JSON-shaped JavaScript value. Objects keep their properties as an
  association list in insertion order; a property is looked up by its first binding.
  Numbers are the finite numbers (a finite double is a rational); \<^verbatim>\<open>NaN\<close> cannot
  come out of JSON. Strings are sequences of code units below 256.
\<close>

datatype jsval =
    JUndefined
  | JNull
  | JBool bool
  | JNum rat
  | JStr string
  | JArr "jsval list"
  | JObj "(string \<times> jsval) list"

text \<open>JavaScript truthiness (\<^verbatim>\<open>if (v)\<close>, \<^verbatim>\<open>!v\<close>, \<^verbatim>\<open>a && b\<close>, \<^verbatim>\<open>a || b\<close>).\<close>

fun truthy :: "jsval \<Rightarrow> bool" where
  "truthy JUndefined = False"
| "truthy JNull = False"
| "truthy (JBool b) = b"
| "truthy (JNum n) = (n \<noteq> 0)"
| "truthy (JStr s) = (s \<noteq> [])"
| "truthy (JArr xs) = True"
| "truthy (JObj kvs) = True"

text \<open>\<^verbatim>\<open>typeof v === 'object'\<close>: objects, arrays and \<^verbatim>\<open>null\<close>.\<close>

fun typeof_object :: "jsval \<Rightarrow> bool" where
  "typeof_object JNull = True"
| "typeof_object (JArr xs) = True"
| "typeof_object (JObj kvs) = True"
| "typeof_object v = False"

text \<open>\<^verbatim>\<open>typeof v === 'string'\<close>.\<close>

fun typeof_string :: "jsval \<Rightarrow> bool" where
  "typeof_string (JStr s) = True"
| "typeof_string v = False"

text \<open>A structured record: an object, as opposed to an array or a primitive value.\<close>

fun is_record :: "jsval \<Rightarrow> bool" where
  "is_record (JObj kvs) = True"
| "is_record v = False"

text \<open>
  Property read \<^verbatim>\<open>v?.k\<close> for the named keys the page reads (\<^verbatim>\<open>response\<close>,
  \<^verbatim>\<open>result\<close>, \<^verbatim>\<open>text\<close>, \<^verbatim>\<open>message\<close>, ...): an object yields the bound value or
  \<^verbatim>\<open>undefined\<close>; \<^verbatim>\<open>null\<close> and \<^verbatim>\<open>undefined\<close> yield \<^verbatim>\<open>undefined\<close> through the
  optional chaining; strings, numbers, booleans and arrays have no such property.
  Every plain \<^verbatim>\<open>v.k\<close> of the source is guarded by a truthiness test of \<^verbatim>\<open>v\<close>, so
  it never reads from \<^verbatim>\<open>null\<close> or \<^verbatim>\<open>undefined\<close>.
\<close>

fun js_get :: "jsval \<Rightarrow> string \<Rightarrow> jsval" where
  "js_get (JObj kvs) k = (case map_of kvs k of Some v \<Rightarrow> v | None \<Rightarrow> JUndefined)"
| "js_get v k = JUndefined"

text \<open>Property write \<^verbatim>\<open>o.k = v\<close>: an existing property keeps its place, a new one goes last.\<close>

fun set_prop :: "string \<Rightarrow> jsval \<Rightarrow> (string \<times> jsval) list \<Rightarrow> (string \<times> jsval) list" where
  "set_prop k v [] = [(k, v)]"
| "set_prop k v (p # ps) = (if fst p = k then (k, v) # ps else p # set_prop k v ps)"

text \<open>\<^verbatim>\<open>Array.isArray(v) && v.length > 0\<close>.\<close>

fun nonempty_array :: "jsval \<Rightarrow> bool" where
  "nonempty_array (JArr (x # xs)) = True"
| "nonempty_array v = False"

text \<open>\<^verbatim>\<open>a ?? b\<close>: the right operand only when the left is \<^verbatim>\<open>null\<close> or \<^verbatim>\<open>undefined\<close>.\<close>

fun nullish_or :: "jsval \<Rightarrow> jsval \<Rightarrow> jsval" where
  "nullish_or JUndefined d = d"
| "nullish_or JNull d = d"
| "nullish_or v d = v"

text \<open>Decimal digits of an index, for the keys an array or string gets when it is spread.\<close>

function string_of_nat :: "nat \<Rightarrow> string" where
  "string_of_nat n =
     (if n < 10 then [''0123456789'' ! n]
      else string_of_nat (n div 10) @ [''0123456789'' ! (n mod 10)])"
  by pat_completeness auto
termination
  by (relation "measure id") auto

declare string_of_nat.simps [simp del]

text \<open>
  Object spread \<^verbatim>\<open>{ ...v }\<close>: the own enumerable properties of \<^verbatim>\<open>v\<close>. \<^verbatim>\<open>null\<close>,
  \<^verbatim>\<open>undefined\<close>, numbers and booleans have none; an array or a string spreads its
  elements under their indices.
\<close>

fun spread :: "jsval \<Rightarrow> (string \<times> jsval) list" where
  "spread (JObj kvs) = kvs"
| "spread (JArr xs) = zip (map string_of_nat [0..<length xs]) xs"
| "spread (JStr s) = zip (map string_of_nat [0..<length s]) (map (\<lambda>c. JStr [c]) s)"
| "spread v = []"

section \<open>State merger (the \<^verbatim>\<open>setAgentData\<close> updater of \<^verbatim>\<open>sendChat\<close>)\<close>

text \<open>One guarded assignment \<^verbatim>\<open>if (c) updated.k = v\<close> on the copy.\<close>

definition assign_if :: "bool \<Rightarrow> string \<Rightarrow> jsval \<Rightarrow> (string \<times> jsval) list \<Rightarrow> (string \<times> jsval) list" where
  "assign_if c k v updated = (if c then set_prop k v updated else updated)"

text \<open>
  Lines 461--470: the functional update \<^verbatim>\<open>setAgentData((prev) => { ... })\<close>. Each
  guarded assignment is one step on the copy \<^verbatim>\<open>updated\<close>, in the source's order.
\<close>

definition mergeAgentData :: "jsval \<Rightarrow> jsval \<Rightarrow> jsval" where
  "mergeAgentData prev parsed =
     (let updated = spread prev;
          updated = assign_if (truthy (js_get parsed ''metrics''))
                      ''metrics'' (js_get parsed ''metrics'') updated;
          updated = assign_if (nonempty_array (js_get parsed ''lowStockAlerts''))
                      ''lowStockAlerts'' (js_get parsed ''lowStockAlerts'') updated;
          updated = assign_if (nonempty_array (js_get parsed ''inventoryItems''))
                      ''inventoryItems'' (js_get parsed ''inventoryItems'') updated;
          updated = assign_if (nonempty_array (js_get parsed ''salesData''))
                      ''salesData'' (js_get parsed ''salesData'') updated;
          updated = assign_if (nonempty_array (js_get parsed ''orders''))
                      ''orders'' (js_get parsed ''orders'') updated;
          updated = assign_if (truthy (js_get parsed ''message''))
                      ''message'' (js_get parsed ''message'') updated
      in JObj updated)"

text \<open>
  Lines 459--470 as a function of the stored snapshot and the resolved one: the
  updater runs only under \<^verbatim>\<open>if (parsed)\<close>; otherwise \<^verbatim>\<open>setAgentData\<close> is not called.
\<close>

definition mergeSnapshot :: "jsval \<Rightarrow> jsval \<Rightarrow> jsval" where
  "mergeSnapshot prev parsed = (if truthy parsed then mergeAgentData prev parsed else prev)"

section \<open>Tolerant decoder (\<^verbatim>\<open>tryParseJSON\<close>)\<close>

text \<open>
  \<^verbatim>\<open>\s\<close> of the regular expression and the characters \<^verbatim>\<open>String.prototype.trim\<close>
  strips are the same set (ECMAScript WhiteSpace and LineTerminator); below 256 these
  are TAB, LF, VT, FF, CR, SPACE and NBSP.
\<close>

definition is_space :: "char \<Rightarrow> bool" where
  "is_space c = (c \<in> set [CHR 0x09, CHR 0x0A, CHR 0x0B, CHR 0x0C, CHR 0x0D, CHR 0x20, CHR 0xA0])"

text \<open>\<^verbatim>\<open>s.trim()\<close>.\<close>

definition trim :: "string \<Rightarrow> string" where
  "trim s = rev (dropWhile is_space (rev (dropWhile is_space s)))"

text \<open>The fence \<^verbatim>\<open>```\<close> and the line feed.\<close>

definition ticks :: string where
  "ticks = [CHR 0x60, CHR 0x60, CHR 0x60]"

definition nl :: char where
  "nl = CHR 0x0A"

text \<open>
  Line 108: \<^verbatim>\<open>val.match(/```(?:json)?\s*\n?([\s\S]*?)\n?```/)\<close>, as the backtracking
  matcher runs it. Each function is one piece of the pattern together with everything
  that follows it, and yields capture group 1 of the first way to match, in the
  matcher's order of preference: a greedy piece tries its longest choice first, the lazy
  body its shortest.

  \<open>lazy_body acc s\<close> is \<^verbatim>\<open>([\s\S]*?)\n?```\<close> at \<open>s\<close>, with \<open>acc\<close> the body taken so far:
  the body stops as soon as \<^verbatim>\<open>\n```\<close> or \<^verbatim>\<open>```\<close> follows, else takes one more
  character.
\<close>

fun lazy_body :: "string \<Rightarrow> string \<Rightarrow> string option" where
  "lazy_body acc [] = None"
| "lazy_body acc (c # cs) =
     (if prefix (nl # ticks) (c # cs) \<or> prefix ticks (c # cs) then Some acc
      else lazy_body (acc @ [c]) cs)"

text \<open>\<^verbatim>\<open>\n?([\s\S]*?)\n?```\<close>: with the line feed if there is one, else without.\<close>

fun opt_newline :: "string \<Rightarrow> string option" where
  "opt_newline [] = lazy_body [] []"
| "opt_newline (c # cs) =
     (if c = nl
      then (case lazy_body [] cs of Some b \<Rightarrow> Some b | None \<Rightarrow> lazy_body [] (c # cs))
      else lazy_body [] (c # cs))"

text \<open>\<^verbatim>\<open>\s*\n?([\s\S]*?)\n?```\<close>: as much white space as possible, giving back on failure.\<close>

fun spaces :: "string \<Rightarrow> string option" where
  "spaces [] = opt_newline []"
| "spaces (c # cs) =
     (if is_space c
      then (case spaces cs of Some b \<Rightarrow> Some b | None \<Rightarrow> opt_newline (c # cs))
      else opt_newline (c # cs))"

text \<open>\<^verbatim>\<open>(?:json)?\s*\n?([\s\S]*?)\n?```\<close>: with the tag if it is there, else without.\<close>

definition opt_json :: "string \<Rightarrow> string option" where
  "opt_json s =
     (if prefix ''json'' s
      then (case spaces (drop 4 s) of Some b \<Rightarrow> Some b | None \<Rightarrow> spaces s)
      else spaces s)"

text \<open>The whole pattern, tried at each position from the left; \<^verbatim>\<open>match[1]\<close> if it matches.\<close>

fun match_fence :: "string \<Rightarrow> string option" where
  "match_fence [] = None"
| "match_fence (c # cs) =
     (if prefix ticks (c # cs)
      then (case opt_json (drop 3 (c # cs)) of Some b \<Rightarrow> Some b | None \<Rightarrow> match_fence cs)
      else match_fence cs)"

text \<open>
  Lines 100--120. \<^verbatim>\<open>JSON.parse\<close> is the platform's: it is the parameter \<open>parse\<close>, with
  \<open>None\<close> for a thrown \<^verbatim>\<open>SyntaxError\<close>. The failure value is \<^verbatim>\<open>null\<close>, as in the source.
\<close>

definition tryParseJSON :: "(string \<Rightarrow> jsval option) \<Rightarrow> jsval \<Rightarrow> jsval" where
  "tryParseJSON parse val =
     (if \<not> truthy val then JNull
      else if typeof_object val then val
      else (case val of
              JStr s \<Rightarrow>
                (case parse s of
                   Some v \<Rightarrow> v
                 | None \<Rightarrow>
                     (case match_fence s of
                        Some body \<Rightarrow> (case parse (trim body) of Some v \<Rightarrow> v | None \<Rightarrow> JNull)
                      | None \<Rightarrow> JNull))
            | _ \<Rightarrow> JNull))"

text \<open>
  The fenced block in closed form, for comparison with the matcher: the text after the
  first \<^verbatim>\<open>```\<close>, less a leading \<^verbatim>\<open>json\<close> and the white space after it, up to the next
  \<^verbatim>\<open>```\<close>, less one line feed right before that.
\<close>

fun after_ticks :: "string \<Rightarrow> string option" where
  "after_ticks [] = None"
| "after_ticks (c # cs) = (if prefix ticks (c # cs) then Some (drop 3 (c # cs)) else after_ticks cs)"

fun before_ticks :: "string \<Rightarrow> string option" where
  "before_ticks [] = None"
| "before_ticks (c # cs) =
     (if prefix ticks (c # cs) then Some [] else map_option ((#) c) (before_ticks cs))"

definition strip_tag :: "string \<Rightarrow> string" where
  "strip_tag s = (if prefix ''json'' s then drop 4 s else s)"

definition chop_newline :: "string \<Rightarrow> string" where
  "chop_newline b = (if b \<noteq> [] \<and> last b = nl then butlast b else b)"

definition fenced_body :: "string \<Rightarrow> string option" where
  "fenced_body s =
     (case after_ticks s of
        None \<Rightarrow> None
      | Some r \<Rightarrow> map_option chop_newline (before_ticks (dropWhile is_space (strip_tag r))))"

text \<open>
  \<^verbatim>\<open>JSON.parse\<close> on the texts of the worked examples: \<^verbatim>\<open>{"message":"x"}\<close> is the one
  JSON text they decode; the other strings they pass to it (\<^verbatim>\<open>not json at all\<close>,
  prose, a fenced block taken as a whole) are syntax errors. It stands for
  \<^verbatim>\<open>JSON.parse\<close> at those inputs only.
\<close>

definition parse_examples :: "string \<Rightarrow> jsval option" where
  "parse_examples s =
     (if s = ''{\"message\":\"x\"}'' then Some (JObj [(''message'', JStr ''x'')]) else None)"

section \<open>Envelope resolver (\<^verbatim>\<open>parseAgentResponse\<close>)\<close>

text \<open>
  Lines 122--182, one \<^verbatim>\<open>if\<close> of the source per \<open>if\<close> here, in the source's order.
  The blocks of strategies 2 and 3 fall through to the next strategy when their inner
  test fails; their outer guards (\<^verbatim>\<open>if (textField)\<close>, \<^verbatim>\<open>if (result?.raw_response)\<close>,
  \<^verbatim>\<open>if (rawParsed)\<close>) are conjuncts of the test that returns. The result is the accepted
  value itself (\<^verbatim>\<open>data as AgentData\<close> is an unchecked cast), or \<^verbatim>\<open>null\<close>.
\<close>

definition parseAgentResponse :: "(string \<Rightarrow> jsval option) \<Rightarrow> jsval \<Rightarrow> jsval" where
  "parseAgentResponse parse result =
     (if \<not> truthy result then JNull
      else
        let data = tryParseJSON parse (js_get (js_get result ''response'') ''result'') in
        if truthy data \<and> typeof_object data \<and>
           (truthy (js_get data ''message'') \<or> truthy (js_get data ''metrics'') \<or>
            truthy (js_get data ''lowStockAlerts'') \<or> truthy (js_get data ''inventoryItems''))
        then data
        else
        let textField = js_get (js_get (js_get result ''response'') ''result'') ''text'';
            parsed = tryParseJSON parse textField in
        if truthy textField \<and> truthy parsed \<and> typeof_object parsed \<and>
           (truthy (js_get parsed ''message'') \<or> truthy (js_get parsed ''metrics'') \<or>
            truthy (js_get parsed ''lowStockAlerts''))
        then parsed
        else
        let raw_response = js_get result ''raw_response'';
            rawParsed = tryParseJSON parse raw_response;
            inner = js_get rawParsed ''response'';
            inner = (if typeof_string inner then tryParseJSON parse inner else inner) in
        if truthy raw_response \<and> truthy rawParsed \<and> truthy inner \<and> typeof_object inner \<and>
           (truthy (js_get inner ''message'') \<or> truthy (js_get inner ''metrics'') \<or>
            truthy (js_get inner ''lowStockAlerts''))
        then inner
        else
        if truthy raw_response \<and> truthy rawParsed \<and> truthy rawParsed \<and> typeof_object rawParsed \<and>
           (truthy (js_get rawParsed ''message'') \<or> truthy (js_get rawParsed ''metrics'') \<or>
            truthy (js_get rawParsed ''lowStockAlerts''))
        then rawParsed
        else
        let respDirect = tryParseJSON parse (js_get result ''response'') in
        if truthy respDirect \<and> typeof_object respDirect \<and>
           (truthy (js_get respDirect ''message'') \<or> truthy (js_get respDirect ''metrics'') \<or>
            truthy (js_get respDirect ''lowStockAlerts''))
        then respDirect
        else
        let msgField = js_get (js_get result ''response'') ''message'' in
        if truthy msgField \<and> typeof_string msgField
        then
          (let msgParsed = tryParseJSON parse msgField in
           if truthy msgParsed \<and> typeof_object msgParsed \<and>
              (truthy (js_get msgParsed ''metrics'') \<or> truthy (js_get msgParsed ''lowStockAlerts''))
           then msgParsed
           else JObj [(''message'', msgField)])
        else
        if truthy result \<and> typeof_object result \<and>
           (truthy (js_get result ''message'') \<or> truthy (js_get result ''metrics'') \<or>
            truthy (js_get result ''lowStockAlerts''))
        then result
        else JNull)"

subsection \<open>The six strategies, one by one\<close>

text \<open>
  The same blocks taken apart, for the statements about single strategies: the
  acceptance test of each block as the source writes it, and each strategy as the value
  it returns, if it returns. \<open>accepts4\<close> is the test of strategy 1 (line 127),
  \<open>accepts3\<close> that of strategies 2, 3, 4 and 6 (lines 135, 149, 153, 161, 177),
  \<open>accepts2\<close> that of strategy 5 (line 169).
\<close>

definition accepts4 :: "jsval \<Rightarrow> bool" where
  "accepts4 d = (truthy d \<and> typeof_object d \<and>
     (truthy (js_get d ''message'') \<or> truthy (js_get d ''metrics'') \<or>
      truthy (js_get d ''lowStockAlerts'') \<or> truthy (js_get d ''inventoryItems'')))"

definition accepts3 :: "jsval \<Rightarrow> bool" where
  "accepts3 d = (truthy d \<and> typeof_object d \<and>
     (truthy (js_get d ''message'') \<or> truthy (js_get d ''metrics'') \<or>
      truthy (js_get d ''lowStockAlerts'')))"

definition accepts2 :: "jsval \<Rightarrow> bool" where
  "accepts2 d = (truthy d \<and> typeof_object d \<and>
     (truthy (js_get d ''metrics'') \<or> truthy (js_get d ''lowStockAlerts'')))"

definition strategy1 :: "(string \<Rightarrow> jsval option) \<Rightarrow> jsval \<Rightarrow> jsval option" where
  "strategy1 parse result =
     (let data = tryParseJSON parse (js_get (js_get result ''response'') ''result'')
      in if accepts4 data then Some data else None)"

definition strategy2 :: "(string \<Rightarrow> jsval option) \<Rightarrow> jsval \<Rightarrow> jsval option" where
  "strategy2 parse result =
     (let textField = js_get (js_get (js_get result ''response'') ''result'') ''text''
      in if truthy textField
         then (let parsed = tryParseJSON parse textField
               in if accepts3 parsed then Some parsed else None)
         else None)"

definition strategy3 :: "(string \<Rightarrow> jsval option) \<Rightarrow> jsval \<Rightarrow> jsval option" where
  "strategy3 parse result =
     (if truthy (js_get result ''raw_response'')
      then (let rawParsed = tryParseJSON parse (js_get result ''raw_response'')
            in if truthy rawParsed
               then (let inner = js_get rawParsed ''response'';
                         inner = (if typeof_string inner then tryParseJSON parse inner else inner)
                     in if accepts3 inner then Some inner
                        else if accepts3 rawParsed then Some rawParsed
                        else None)
               else None)
      else None)"

definition strategy4 :: "(string \<Rightarrow> jsval option) \<Rightarrow> jsval \<Rightarrow> jsval option" where
  "strategy4 parse result =
     (let respDirect = tryParseJSON parse (js_get result ''response'')
      in if accepts3 respDirect then Some respDirect else None)"

definition strategy5 :: "(string \<Rightarrow> jsval option) \<Rightarrow> jsval \<Rightarrow> jsval option" where
  "strategy5 parse result =
     (let msgField = js_get (js_get result ''response'') ''message''
      in if truthy msgField \<and> typeof_string msgField
         then (let msgParsed = tryParseJSON parse msgField
               in if accepts2 msgParsed then Some msgParsed
                  else Some (JObj [(''message'', msgField)]))
         else None)"

definition strategy6 :: "jsval \<Rightarrow> jsval option" where
  "strategy6 result = (if accepts3 result then Some result else None)"

text \<open>The first strategy that returns decides.\<close>

fun first_success :: "'a option list \<Rightarrow> 'a option" where
  "first_success [] = None"
| "first_success (Some x # rest) = Some x"
| "first_success (None # rest) = first_success rest"

text \<open>The decoded candidates a call examines, in the order of the strategies.\<close>

definition candidates :: "(string \<Rightarrow> jsval option) \<Rightarrow> jsval \<Rightarrow> jsval list" where
  "candidates parse result =
     (let rawParsed = tryParseJSON parse (js_get result ''raw_response'');
          inner = js_get rawParsed ''response'';
          msgField = js_get (js_get result ''response'') ''message''
      in [tryParseJSON parse (js_get (js_get result ''response'') ''result''),
          tryParseJSON parse (js_get (js_get (js_get result ''response'') ''result'') ''text''),
          (if typeof_string inner then tryParseJSON parse inner else inner),
          rawParsed,
          tryParseJSON parse (js_get result ''response''),
          (if typeof_string msgField then tryParseJSON parse msgField else JNull),
          result])"

text \<open>No recognized key of the candidate is bound to a truthy value.\<close>

definition no_truthy_key :: "jsval \<Rightarrow> bool" where
  "no_truthy_key d =
     (\<not> truthy (js_get d ''message'') \<and> \<not> truthy (js_get d ''metrics'') \<and>
      \<not> truthy (js_get d ''lowStockAlerts'') \<and> \<not> truthy (js_get d ''inventoryItems''))"

section \<open>Message extractor (\<^verbatim>\<open>extractMessageFromResult\<close>)\<close>

text \<open>
  Lines 184--195. \<^verbatim>\<open>JSON.stringify\<close> is the platform's: the parameter \<open>stringify\<close>.
  The function returns whatever value the field holds: the declared result type
  \<^verbatim>\<open>string\<close> is not checked at run time.
\<close>

definition extractMessageFromResult ::
  "(string \<Rightarrow> jsval option) \<Rightarrow> (jsval \<Rightarrow> string) \<Rightarrow> jsval \<Rightarrow> jsval" where
  "extractMessageFromResult parse stringify result =
     (let parsed = parseAgentResponse parse result in
      if truthy (js_get parsed ''message'') then js_get parsed ''message''
      else
      let resp = js_get result ''response'' in
      if truthy (js_get resp ''message'') then js_get resp ''message''
      else if truthy (js_get (js_get resp ''result'') ''text'')
      then (if typeof_string (js_get (js_get resp ''result'') ''text'')
            then js_get (js_get resp ''result'') ''text''
            else JStr (stringify (js_get (js_get resp ''result'') ''text'')))
      else if truthy (js_get (js_get resp ''result'') ''message'')
      then js_get (js_get resp ''result'') ''message''
      else JStr ''Response received. Dashboard updated.'')"

section \<open>Dashboard state store (the page component)\<close>

text \<open>
  The \<^verbatim>\<open>useState\<close> cells the two agent calls write. \<^verbatim>\<open>error\<close> is \<^verbatim>\<open>null\<close> when no
  error is shown. A chat message's content is whatever value was stored (the declared
  type \<^verbatim>\<open>string\<close> is not checked at run time); its timestamp is the clock reading
  \<^verbatim>\<open>new Date()\<close>, passed in.
\<close>

datatype chat_role = User | Agent

record chat_message =
  role :: chat_role
  content :: jsval
  timestamp :: nat

record page_state =
  agentData :: jsval
  loading :: bool
  error :: jsval
  activeAgentId :: "string option"
  chatMessages :: "chat_message list"
  chatInput :: string
  chatLoading :: bool

definition AGENT_ID :: string where
  "AGENT_ID = ''699d4f2141645707cdaec53a''"

text \<open>Lines 354--362: the state of a freshly mounted page.\<close>

definition initial_state :: page_state where
  "initial_state =
     \<lparr>agentData = JNull, loading = True, error = JNull, activeAgentId = None,
      chatMessages = [], chatInput = [], chatLoading = False\<rparr>"

text \<open>
  How \<^verbatim>\<open>await callAIAgent(...)\<close> ends: the promise rejects with a thrown value
  (\<^verbatim>\<open>e instanceof Error\<close> with its message, or anything else), or resolves with the
  result object, given by its properties (the call's declared result type is an object).
\<close>

datatype thrown = ErrorObject string | OtherValue

datatype call_outcome = Rejected thrown | Resolved "(string \<times> jsval) list"

text \<open>Lines 400--402: \<^verbatim>\<open>fetchDashboard\<close> up to the call.\<close>

definition fetchDashboard_start :: "page_state \<Rightarrow> page_state" where
  "fetchDashboard_start st = st\<lparr>loading := True, error := JNull, activeAgentId := Some AGENT_ID\<rparr>"

text \<open>
  Lines 412--432: \<^verbatim>\<open>fetchDashboard\<close> from the point the call settles, on the state of
  that moment. \<^verbatim>\<open>setAgentData(parsed)\<close> and \<^verbatim>\<open>setChatMessages([...])\<close> store the given
  value; the \<^verbatim>\<open>finally\<close> block runs on every path.
\<close>

definition fetchDashboard_settle ::
  "(string \<Rightarrow> jsval option) \<Rightarrow> page_state \<Rightarrow> call_outcome \<Rightarrow> nat \<Rightarrow> page_state" where
  "fetchDashboard_settle parse st outcome now =
     (let st =
        (case outcome of
           Resolved props \<Rightarrow>
             (let result = JObj props in
              if truthy (js_get result ''success'')
              then (let parsed = parseAgentResponse parse result in
                    if truthy parsed
                    then (let st = st\<lparr>agentData := parsed\<rparr> in
                          if truthy (js_get parsed ''message'')
                          then st\<lparr>chatMessages :=
                                 [\<lparr>role = Agent, content = js_get parsed ''message'', timestamp = now\<rparr>]\<rparr>
                          else st)
                    else st\<lparr>error :=
                           JStr ''Could not parse agent response. Try asking a question in the chat.''\<rparr>)
              else st\<lparr>error :=
                     nullish_or (js_get result ''error'') (JStr ''Agent call failed. Please retry.'')\<rparr>)
         | Rejected e \<Rightarrow>
             st\<lparr>error := JStr (case e of ErrorObject m \<Rightarrow> m | OtherValue \<Rightarrow> ''Network error'')\<rparr>)
      in st\<lparr>loading := False, activeAgentId := None\<rparr>)"

text \<open>The whole of \<^verbatim>\<open>fetchDashboard\<close> when nothing else runs while the call is pending.\<close>

definition fetchDashboard ::
  "(string \<Rightarrow> jsval option) \<Rightarrow> page_state \<Rightarrow> call_outcome \<Rightarrow> nat \<Rightarrow> page_state" where
  "fetchDashboard parse st outcome now =
     fetchDashboard_settle parse (fetchDashboard_start st) outcome now"

text \<open>
  Lines 446--452: \<^verbatim>\<open>sendChat\<close> up to the call. \<open>None\<close> is the early \<^verbatim>\<open>return\<close> (empty
  input, or a chat call already pending): no call is made and nothing changes.
  Otherwise the prompt sent and the new state.
\<close>

definition sendChat_start :: "page_state \<Rightarrow> nat \<Rightarrow> (string \<times> page_state) option" where
  "sendChat_start st now =
     (let msg = trim (chatInput st) in
      if msg = [] \<or> chatLoading st then None
      else Some (msg,
             st\<lparr>chatInput := [],
                chatMessages := chatMessages st @ [\<lparr>role = User, content = JStr msg, timestamp = now\<rparr>],
                chatLoading := True,
                activeAgentId := Some AGENT_ID\<rparr>))"

text \<open>
  Lines 456--485: \<^verbatim>\<open>sendChat\<close> from the point the call settles. Both state writes
  are functional updates (\<^verbatim>\<open>(prev) => ...\<close>) on the state of that moment.
\<close>

definition sendChat_settle ::
  "(string \<Rightarrow> jsval option) \<Rightarrow> (jsval \<Rightarrow> string) \<Rightarrow> page_state \<Rightarrow> call_outcome \<Rightarrow> nat \<Rightarrow> page_state" where
  "sendChat_settle parse stringify st outcome now =
     (let st =
        (case outcome of
           Resolved props \<Rightarrow>
             (let result = JObj props in
              if truthy (js_get result ''success'')
              then (let parsed = parseAgentResponse parse result in
                    if truthy parsed
                    then (let st = st\<lparr>agentData := mergeAgentData (agentData st) parsed\<rparr>;
                              agentText = nullish_or (js_get parsed ''message'')
                                            (extractMessageFromResult parse stringify result)
                          in st\<lparr>chatMessages := chatMessages st @
                                 [\<lparr>role = Agent, content = agentText, timestamp = now\<rparr>]\<rparr>)
                    else (let fallbackText = extractMessageFromResult parse stringify result
                          in st\<lparr>chatMessages := chatMessages st @
                                 [\<lparr>role = Agent, content = fallbackText, timestamp = now\<rparr>]\<rparr>))
              else st\<lparr>chatMessages := chatMessages st @
                     [\<lparr>role = Agent,
                       content = nullish_or (js_get result ''error'') (JStr ''Sorry, something went wrong.''),
                       timestamp = now\<rparr>]\<rparr>)
         | Rejected e \<Rightarrow>
             st\<lparr>chatMessages := chatMessages st @
               [\<lparr>role = Agent,
                 content = JStr (case e of ErrorObject m \<Rightarrow> m | OtherValue \<Rightarrow> ''Network error.''),
                 timestamp = now\<rparr>]\<rparr>)
      in st\<lparr>chatLoading := False, activeAgentId := None\<rparr>)"

text \<open>
  The whole of \<^verbatim>\<open>sendChat\<close> when nothing else runs while the call is pending;
  \<open>call\<close> is the agent's answer to the prompt.
\<close>

definition sendChat ::
  "(string \<Rightarrow> jsval option) \<Rightarrow> (jsval \<Rightarrow> string) \<Rightarrow> page_state \<Rightarrow> (string \<Rightarrow> call_outcome) \<Rightarrow>
   nat \<Rightarrow> nat \<Rightarrow> page_state" where
  "sendChat parse stringify st call now now' =
     (case sendChat_start st now of
        None \<Rightarrow> st
      | Some (msg, st') \<Rightarrow> sendChat_settle parse stringify st' (call msg) now')"


section \<open>Envelopes of the worked examples\<close>

text \<open>\<^verbatim>\<open>{response: {result: {text: {inventoryItems: [{product: "Mat"}]}}}}\<close>\<close>

definition envelope_text_inventory :: jsval where
  "envelope_text_inventory =
     JObj [(''response'', JObj [(''result'', JObj [(''text'',
       JObj [(''inventoryItems'', JArr [JObj [(''product'', JStr ''Mat'')]])])])])]"

text \<open>
  \<^verbatim>\<open>{response: {result: {message: "", metrics: 0, lowStockAlerts: null, inventoryItems: false}}}\<close>
\<close>

definition envelope_falsy_keys :: jsval where
  "envelope_falsy_keys =
     JObj [(''response'', JObj [(''result'',
       JObj [(''message'', JStr []), (''metrics'', JNum 0), (''lowStockAlerts'', JNull),
             (''inventoryItems'', JBool False)])])]"

text \<open>\<^verbatim>\<open>{response: {message: "Here are your top sellers"}}\<close>\<close>

definition envelope_top_sellers :: jsval where
  "envelope_top_sellers =
     JObj [(''response'', JObj [(''message'', JStr ''Here are your top sellers'')])]"

text \<open>\<^verbatim>\<open>{response: {message: 42}}\<close>\<close>

definition envelope_numeric_message :: jsval where
  "envelope_numeric_message = JObj [(''response'', JObj [(''message'', JNum 42)])]"

text \<open>
  A page whose store holds one inventory item and whose transcript holds one user
  message; and a successful call whose reply carries a message only.
\<close>

definition state_with_inventory :: page_state where
  "state_with_inventory =
     initial_state
       \<lparr>agentData := JObj [(''inventoryItems'', JArr [JObj [(''product'', JStr ''Mat'')]])],
        loading := False,
        chatMessages := [\<lparr>role = User, content = JStr ''hi'', timestamp = 1\<rparr>]\<rparr>"

definition outcome_message_only :: call_outcome where
  "outcome_message_only =
     Resolved [(''success'', JBool True), (''response'', JObj [(''message'', JStr ''ok'')])]"













section \<open>Properties of the merger\<close>

lemma map_of_set_prop: "map_of (set_prop k v kvs) k' = (if k' = k then Some v else map_of kvs k')"
  by (induction kvs) auto

lemma js_get_set_prop:
  "js_get (JObj (set_prop k v kvs)) k' = (if k' = k then v else js_get (JObj kvs) k')"
  by (simp add: map_of_set_prop)

lemma js_get_assign_if:
  "js_get (JObj (assign_if c k v kvs)) k' = (if c \<and> k' = k then v else js_get (JObj kvs) k')"
  by (simp add: assign_if_def js_get_set_prop del: js_get.simps)

lemma digit_char: "n < 10 \<Longrightarrow> ''0123456789'' ! n \<in> set ''0123456789''"
  by (rule nth_mem) simp

lemma string_of_nat_digits: "set (string_of_nat n) \<subseteq> set ''0123456789''"
proof (induction n rule: string_of_nat.induct)
  case (1 n)
  show ?case
  proof (cases "n < 10")
    case True
    then show ?thesis using digit_char[of n] by (subst string_of_nat.simps) simp
  next
    case False
    have "n mod 10 < 10" by simp
    then have "''0123456789'' ! (n mod 10) \<in> set ''0123456789''" by (rule digit_char)
    with False 1 show ?thesis by (subst string_of_nat.simps) simp
  qed
qed

lemma map_of_zip_index:
  assumes "c \<in> set k" "c \<notin> set ''0123456789''"
  shows "map_of (zip (map string_of_nat ns) xs) k = None"
proof -
  have "k \<notin> set (map string_of_nat ns)"
    using assms string_of_nat_digits by fastforce
  then have "k \<notin> fst ` set (zip (map string_of_nat ns) xs)"
    by (auto dest: set_zip_leftD)
  then show ?thesis
    by (simp add: map_of_eq_None_iff)
qed

text \<open>Spreading keeps every property whose name is not an index.\<close>

lemma js_get_spread:
  assumes "c \<in> set k" "c \<notin> set ''0123456789''"
  shows "js_get (JObj (spread S)) k = js_get S k"
  using assms by (cases S) (simp_all add: map_of_zip_index)

lemma spread_fields:
  "js_get (JObj (spread S)) ''metrics'' = js_get S ''metrics''"
  "js_get (JObj (spread S)) ''lowStockAlerts'' = js_get S ''lowStockAlerts''"
  "js_get (JObj (spread S)) ''inventoryItems'' = js_get S ''inventoryItems''"
  "js_get (JObj (spread S)) ''salesData'' = js_get S ''salesData''"
  "js_get (JObj (spread S)) ''orders'' = js_get S ''orders''"
  "js_get (JObj (spread S)) ''message'' = js_get S ''message''"
  by (rule js_get_spread[of "CHR ''m''"], simp, simp,
      rule js_get_spread[of "CHR ''l''"], simp, simp,
      rule js_get_spread[of "CHR ''i''"], simp, simp,
      rule js_get_spread[of "CHR ''s''"], simp, simp,
      rule js_get_spread[of "CHR ''o''"], simp, simp,
      rule js_get_spread[of "CHR ''m''"], simp, simp)

lemma js_get_falsy: "\<not> truthy I \<Longrightarrow> js_get I k = JUndefined"
  by (cases I) simp_all

lemma merge_metrics:
  "js_get (mergeSnapshot S I) ''metrics'' =
     (if truthy (js_get I ''metrics'') then js_get I ''metrics'' else js_get S ''metrics'')"
proof (cases "truthy I")
  case True
  then show ?thesis
    unfolding mergeSnapshot_def mergeAgentData_def Let_def
    by (simp add: js_get_assign_if spread_fields del: js_get.simps)
next
  case False
  then show ?thesis by (simp add: mergeSnapshot_def js_get_falsy)
qed

lemma merge_message:
  "js_get (mergeSnapshot S I) ''message'' =
     (if truthy (js_get I ''message'') then js_get I ''message'' else js_get S ''message'')"
proof (cases "truthy I")
  case True
  then show ?thesis
    unfolding mergeSnapshot_def mergeAgentData_def Let_def
    by (simp add: js_get_assign_if spread_fields del: js_get.simps)
next
  case False
  then show ?thesis by (simp add: mergeSnapshot_def js_get_falsy)
qed

lemma merge_lowStockAlerts:
  "js_get (mergeSnapshot S I) ''lowStockAlerts'' =
     (if nonempty_array (js_get I ''lowStockAlerts'')
      then js_get I ''lowStockAlerts'' else js_get S ''lowStockAlerts'')"
proof (cases "truthy I")
  case True
  then show ?thesis
    unfolding mergeSnapshot_def mergeAgentData_def Let_def
    by (simp add: js_get_assign_if spread_fields del: js_get.simps)
next
  case False
  then show ?thesis by (simp add: mergeSnapshot_def js_get_falsy)
qed

lemma merge_inventoryItems:
  "js_get (mergeSnapshot S I) ''inventoryItems'' =
     (if nonempty_array (js_get I ''inventoryItems'')
      then js_get I ''inventoryItems'' else js_get S ''inventoryItems'')"
proof (cases "truthy I")
  case True
  then show ?thesis
    unfolding mergeSnapshot_def mergeAgentData_def Let_def
    by (simp add: js_get_assign_if spread_fields del: js_get.simps)
next
  case False
  then show ?thesis by (simp add: mergeSnapshot_def js_get_falsy)
qed

lemma merge_salesData:
  "js_get (mergeSnapshot S I) ''salesData'' =
     (if nonempty_array (js_get I ''salesData'')
      then js_get I ''salesData'' else js_get S ''salesData'')"
proof (cases "truthy I")
  case True
  then show ?thesis
    unfolding mergeSnapshot_def mergeAgentData_def Let_def
    by (simp add: js_get_assign_if spread_fields del: js_get.simps)
next
  case False
  then show ?thesis by (simp add: mergeSnapshot_def js_get_falsy)
qed

lemma merge_orders:
  "js_get (mergeSnapshot S I) ''orders'' =
     (if nonempty_array (js_get I ''orders'')
      then js_get I ''orders'' else js_get S ''orders'')"
proof (cases "truthy I")
  case True
  then show ?thesis
    unfolding mergeSnapshot_def mergeAgentData_def Let_def
    by (simp add: js_get_assign_if spread_fields del: js_get.simps)
next
  case False
  then show ?thesis by (simp add: mergeSnapshot_def js_get_falsy)
qed

subsection \<open>C1: the field-wise, non-destructive merge\<close>

text \<open>
  C1, as the code has it. For every stored snapshot \<open>S\<close> and incoming snapshot \<open>I\<close>:
  merging an absent snapshot (\<^verbatim>\<open>null\<close>) returns \<open>S\<close> itself; each of the list fields
  \<^verbatim>\<open>lowStockAlerts\<close>, \<^verbatim>\<open>inventoryItems\<close>, \<^verbatim>\<open>salesData\<close>, \<^verbatim>\<open>orders\<close> of the result is
  \<open>I\<close>'s list when that is a non-empty array and \<open>S\<close>'s value otherwise; \<^verbatim>\<open>metrics\<close>
  is \<open>I\<close>'s value as a whole exactly when that value is truthy (every record is), and
  \<^verbatim>\<open>message\<close> is \<open>I\<close>'s exactly when that is truthy, that is, for a string, non-empty.
  A present but empty \<^verbatim>\<open>message\<close> leaves the stored message in place.
\<close>

theorem merge_fieldwise_nondestructive:
  "mergeSnapshot S JNull = S
   \<and> js_get (mergeSnapshot S I) ''lowStockAlerts'' =
       (if nonempty_array (js_get I ''lowStockAlerts'')
        then js_get I ''lowStockAlerts'' else js_get S ''lowStockAlerts'')
   \<and> js_get (mergeSnapshot S I) ''inventoryItems'' =
       (if nonempty_array (js_get I ''inventoryItems'')
        then js_get I ''inventoryItems'' else js_get S ''inventoryItems'')
   \<and> js_get (mergeSnapshot S I) ''salesData'' =
       (if nonempty_array (js_get I ''salesData'')
        then js_get I ''salesData'' else js_get S ''salesData'')
   \<and> js_get (mergeSnapshot S I) ''orders'' =
       (if nonempty_array (js_get I ''orders'')
        then js_get I ''orders'' else js_get S ''orders'')
   \<and> js_get (mergeSnapshot S I) ''metrics'' =
       (if truthy (js_get I ''metrics'') then js_get I ''metrics'' else js_get S ''metrics'')
   \<and> js_get (mergeSnapshot S I) ''message'' =
       (if truthy (js_get I ''message'') then js_get I ''message'' else js_get S ''message'')"
proof -
  have "mergeSnapshot S JNull = S"
    by (simp add: mergeSnapshot_def)
  then show ?thesis
    by (simp only: merge_lowStockAlerts merge_inventoryItems merge_salesData merge_orders
          merge_metrics merge_message simp_thms)
qed

text \<open>
  The claim as written fails where the incoming message is present but empty: the stored
  snapshot has message \<^verbatim>\<open>"old"\<close>, the incoming one (which the resolver accepts for its
  \<^verbatim>\<open>metrics\<close>) has message \<^verbatim>\<open>""\<close>; the message is present in the incoming snapshot and
  the merged snapshot still carries \<^verbatim>\<open>"old"\<close>.
\<close>

theorem merge_message_present_counterexample:
  "js_get (JObj [(''message'', JStr []), (''metrics'', JObj [(''totalSKUs'', JNum 5)])]) ''message''
     \<noteq> JUndefined
   \<and> js_get (mergeSnapshot (JObj [(''message'', JStr ''old'')])
         (JObj [(''message'', JStr []), (''metrics'', JObj [(''totalSKUs'', JNum 5)])])) ''message''
     = JStr ''old''
   \<and> js_get (mergeSnapshot (JObj [(''message'', JStr ''old'')])
         (JObj [(''message'', JStr []), (''metrics'', JObj [(''totalSKUs'', JNum 5)])])) ''message''
     \<noteq> js_get (JObj [(''message'', JStr []), (''metrics'', JObj [(''totalSKUs'', JNum 5)])]) ''message''"
  by (simp add: mergeSnapshot_def mergeAgentData_def assign_if_def)

subsection \<open>C8: order tolerance of the merge\<close>

text \<open>
  C8. For every snapshot \<open>S\<close> and entry \<open>s1\<close>, merging \<^verbatim>\<open>{salesData:[s1]}\<close> and
  \<^verbatim>\<open>{salesData:[]}\<close> into \<open>S\<close> in either order leaves \<^verbatim>\<open>salesData = [s1]\<close>; and an incoming
  snapshot whose list is empty never replaces a stored non-empty list, for each of the
  four list fields.
\<close>

theorem merge_order_tolerant:
  "js_get (mergeSnapshot (mergeSnapshot S (JObj [(''salesData'', JArr [s1])]))
            (JObj [(''salesData'', JArr [])])) ''salesData'' = JArr [s1]
   \<and> js_get (mergeSnapshot (mergeSnapshot S (JObj [(''salesData'', JArr [])]))
            (JObj [(''salesData'', JArr [s1])])) ''salesData'' = JArr [s1]
   \<and> (js_get I ''salesData'' = JArr [] \<longrightarrow>
        js_get (mergeSnapshot S I) ''salesData'' = js_get S ''salesData'')
   \<and> (js_get I ''lowStockAlerts'' = JArr [] \<longrightarrow>
        js_get (mergeSnapshot S I) ''lowStockAlerts'' = js_get S ''lowStockAlerts'')
   \<and> (js_get I ''inventoryItems'' = JArr [] \<longrightarrow>
        js_get (mergeSnapshot S I) ''inventoryItems'' = js_get S ''inventoryItems'')
   \<and> (js_get I ''orders'' = JArr [] \<longrightarrow>
        js_get (mergeSnapshot S I) ''orders'' = js_get S ''orders'')"
  by (simp add: merge_salesData merge_lowStockAlerts merge_inventoryItems merge_orders)

theorem merge_order_tolerant_witness:
  "js_get (JObj [(''salesData'', JArr [])]) ''salesData'' = JArr []
   \<and> js_get (mergeSnapshot (JObj [(''salesData'', JArr [JStr ''s0''])])
         (JObj [(''salesData'', JArr [])])) ''salesData'' = JArr [JStr ''s0'']
   \<and> js_get (mergeSnapshot
         (mergeSnapshot (JObj [(''salesData'', JArr [JStr ''s0''])])
            (JObj [(''salesData'', JArr [JStr ''s1''])]))
         (JObj [(''salesData'', JArr [])])) ''salesData'' = JArr [JStr ''s1'']"
  using merge_order_tolerant [of "JObj [(''salesData'', JArr [JStr ''s0''])]" "JStr ''s1''"
      "JObj [(''salesData'', JArr [])]"]
  by simp

section \<open>Properties of the decoder\<close>

subsection \<open>The backtracking matcher finds the fenced block of the closed form\<close>

lemma prefix_ticks_Cons: "prefix ticks (c # cs) \<longleftrightarrow> c = CHR 0x60 \<and> prefix [CHR 0x60, CHR 0x60] cs"
  by (auto simp: ticks_def)

lemma space_not_tick: "is_space c \<Longrightarrow> c \<noteq> CHR 0x60"
  by (auto simp: is_space_def)

lemma nl_space: "is_space nl"
  by (simp add: is_space_def nl_def)

lemma nl_not_tick: "nl \<noteq> CHR 0x60"
  by (simp add: nl_def)

lemma before_ticks_space:
  "is_space c \<Longrightarrow> before_ticks (c # cs) = map_option ((#) c) (before_ticks cs)"
  by (simp add: prefix_ticks_Cons space_not_tick)

lemma before_ticks_Nil_iff: "before_ticks s = Some [] \<longleftrightarrow> prefix ticks s"
  by (cases s) (auto simp: ticks_def)

lemma chop_newline_Cons:
  "u \<noteq> [] \<or> c \<noteq> nl \<Longrightarrow> chop_newline (c # u) = c # chop_newline u"
  by (auto simp: chop_newline_def)

lemma lazy_body_closed:
  "lazy_body acc s = map_option (\<lambda>u. acc @ chop_newline u) (before_ticks s)"
proof (induction s arbitrary: acc)
  case Nil
  then show ?case by simp
next
  case (Cons c cs)
  show ?case
  proof (cases "prefix ticks (c # cs)")
    case True
    then show ?thesis by (simp add: chop_newline_def)
  next
    case nt: False
    show ?thesis
    proof (cases "prefix (nl # ticks) (c # cs)")
      case True
      then have c: "c = nl" and p: "prefix ticks cs" by simp_all
      from p have "before_ticks cs = Some []" by (simp add: before_ticks_Nil_iff)
      with nt have b: "before_ticks (c # cs) = Some [c]" by simp
      have l: "lazy_body acc (c # cs) = Some acc" using True by simp
      have "chop_newline [c] = []" using c by (simp add: chop_newline_def)
      with b l show ?thesis by simp
    next
      case False
      have step: "lazy_body acc (c # cs) = lazy_body (acc @ [c]) cs"
        using nt False by auto
      show ?thesis
      proof (cases "before_ticks cs")
        case None
        with nt step Cons.IH show ?thesis by simp
      next
        case (Some u)
        have "u \<noteq> [] \<or> c \<noteq> nl"
        proof (cases "u = []")
          case True
          with Some have "prefix ticks cs" by (simp add: before_ticks_Nil_iff)
          with False show ?thesis by auto
        qed simp
        then have "chop_newline (c # u) = c # chop_newline u" by (rule chop_newline_Cons)
        with nt step Cons.IH Some show ?thesis by simp
      qed
    qed
  qed
qed

lemma opt_newline_None: "before_ticks s = None \<Longrightarrow> opt_newline s = None"
proof (cases s)
  case Nil
  then show ?thesis by simp
next
  case (Cons c cs)
  assume n: "before_ticks s = None"
  show ?thesis
  proof (cases "c = nl")
    case True
    with n Cons have "before_ticks cs = None"
      using before_ticks_space[OF nl_space, of cs] by (simp del: before_ticks.simps)
    with n Cons True show ?thesis by (simp add: lazy_body_closed)
  next
    case False
    with n Cons show ?thesis by (simp add: lazy_body_closed)
  qed
qed

lemma opt_newline_closed:
  "s = [] \<or> \<not> is_space (hd s) \<Longrightarrow> opt_newline s = map_option chop_newline (before_ticks s)"
proof (cases s)
  case Nil
  then show ?thesis by simp
next
  case (Cons c cs)
  assume "s = [] \<or> \<not> is_space (hd s)"
  with Cons have "c \<noteq> nl" using nl_space by auto
  with Cons show ?thesis unfolding Cons by (simp add: lazy_body_closed del: before_ticks.simps)
qed

lemma before_ticks_dropWhile_None:
  "before_ticks (dropWhile is_space s) = None \<Longrightarrow> before_ticks s = None"
proof (induction s)
  case Nil
  then show ?case by simp
next
  case (Cons a s)
  show ?case
  proof (cases "is_space a")
    case True
    with Cons show ?thesis by (simp add: before_ticks_space del: before_ticks.simps)
  next
    case False
    with Cons.prems show ?thesis by (simp del: before_ticks.simps)
  qed
qed

lemma dropWhile_hd: "dropWhile P s = [] \<or> \<not> P (hd (dropWhile P s))"
  by (metis hd_dropWhile)

lemma spaces_closed:
  "spaces s = map_option chop_newline (before_ticks (dropWhile is_space s))"
proof (induction s)
  case Nil
  then show ?case by simp
next
  case (Cons c cs)
  show ?case
  proof (cases "is_space c")
    case False
    then have "opt_newline (c # cs) = map_option chop_newline (before_ticks (c # cs))"
      by (intro opt_newline_closed) simp
    with False show ?thesis by (simp del: before_ticks.simps opt_newline.simps)
  next
    case True
    show ?thesis
    proof (cases "spaces cs")
      case (Some b)
      with True have "spaces (c # cs) = spaces cs" by simp
      moreover from True have "dropWhile is_space (c # cs) = dropWhile is_space cs" by simp
      ultimately show ?thesis using Cons.IH by simp
    next
      case None
      with Cons.IH have "before_ticks (dropWhile is_space cs) = None" by simp
      then have "before_ticks cs = None" by (rule before_ticks_dropWhile_None)
      with True have "before_ticks (c # cs) = None"
        by (simp add: before_ticks_space del: before_ticks.simps)
      then have "opt_newline (c # cs) = None" by (rule opt_newline_None)
      with True None have "spaces (c # cs) = None" by simp
      moreover from True have "dropWhile is_space (c # cs) = dropWhile is_space cs" by simp
      ultimately show ?thesis using Cons.IH None by simp
    qed
  qed
qed


lemma before_ticks_append_None:
  "before_ticks (u @ v) = None \<Longrightarrow> before_ticks v = None"
  by (induction u) (auto split: if_splits)

lemma before_ticks_drop_None: "before_ticks s = None \<Longrightarrow> before_ticks (drop n s) = None"
  using before_ticks_append_None[of "take n s" "drop n s"] by simp

lemma before_ticks_dropWhile_None': "before_ticks s = None \<Longrightarrow> before_ticks (dropWhile P s) = None"
  using before_ticks_append_None[of "takeWhile P s" "dropWhile P s"] by simp

lemma spaces_None: "before_ticks s = None \<Longrightarrow> spaces s = None"
  by (simp add: spaces_closed before_ticks_dropWhile_None')

lemma opt_json_closed:
  "opt_json s = map_option chop_newline (before_ticks (dropWhile is_space (strip_tag s)))"
proof (cases "prefix ''json'' s")
  case False
  then show ?thesis by (simp add: opt_json_def strip_tag_def spaces_closed)
next
  case True
  show ?thesis
  proof (cases "spaces (drop 4 s)")
    case (Some b)
    with True have "opt_json s = spaces (drop 4 s)" by (simp add: opt_json_def)
    with True show ?thesis by (simp add: strip_tag_def spaces_closed)
  next
    case None
    then have "before_ticks (dropWhile is_space (drop 4 s)) = None"
      by (simp add: spaces_closed)
    then have d: "before_ticks (drop 4 s) = None" by (rule before_ticks_dropWhile_None)
    from True obtain r where s: "s = ''json'' @ r" by (auto simp: prefix_def)
    with d have "before_ticks r = None" by simp
    with s have "before_ticks s = None" by (simp add: ticks_def)
    then have "spaces s = None" by (rule spaces_None)
    with True None show ?thesis by (simp add: opt_json_def strip_tag_def spaces_closed)
  qed
qed

lemma opt_json_None: "before_ticks s = None \<Longrightarrow> opt_json s = None"
  by (simp add: opt_json_closed strip_tag_def before_ticks_dropWhile_None' before_ticks_drop_None)

lemma after_ticks_suffix: "after_ticks s = Some r \<Longrightarrow> \<exists>u. s = u @ r"
proof (induction s)
  case Nil
  then show ?case by simp
next
  case (Cons c cs)
  show ?case
  proof (cases "prefix ticks (c # cs)")
    case True
    with Cons.prems have "r = drop 3 (c # cs)" by simp
    then have "c # cs = take 3 (c # cs) @ r" by simp
    then show ?thesis by blast
  next
    case False
    with Cons.prems have "after_ticks cs = Some r" by simp
    with Cons.IH obtain u where "cs = u @ r" by blast
    then have "c # cs = (c # u) @ r" by simp
    then show ?thesis by blast
  qed
qed

lemma strip_tag_None:
  assumes "before_ticks (strip_tag r) = None"
  shows "before_ticks r = None"
proof (cases "prefix ''json'' r")
  case False
  with assms show ?thesis by (simp add: strip_tag_def)
next
  case True
  then obtain q where r: "r = ''json'' @ q" by (auto simp: prefix_def)
  with assms True have "before_ticks q = None" by (simp add: strip_tag_def)
  with r show ?thesis by (simp add: ticks_def)
qed

lemma fenced_body_suffix_None:
  assumes "before_ticks r = None" "after_ticks s = Some r'" "r = u @ r'"
  shows "fenced_body s = None"
proof -
  from assms(1,3) have "before_ticks r' = None" by (auto dest: before_ticks_append_None)
  then show ?thesis using assms(2)
    by (simp add: fenced_body_def strip_tag_def before_ticks_dropWhile_None' before_ticks_drop_None)
qed

lemma fenced_body_two:
  assumes "before_ticks r = None"
  shows "fenced_body (a # b # r) = None"
proof (cases "after_ticks (a # b # r)")
  case None
  then show ?thesis by (simp add: fenced_body_def)
next
  case (Some r')
  have "\<exists>u. r = u @ r'"
  proof (cases "prefix ticks (a # b # r)")
    case True
    with Some have "r' = drop 1 r" by simp
    then have "r = take 1 r @ r'" by simp
    then show ?thesis by blast
  next
    case n1: False
    show ?thesis
    proof (cases "prefix ticks (b # r)")
      case True
      with n1 Some have "r' = drop 2 r" by simp
      then have "r = take 2 r @ r'" by simp
      then show ?thesis by blast
    next
      case False
      with n1 Some have "after_ticks r = Some r'" by simp
      then show ?thesis by (rule after_ticks_suffix)
    qed
  qed
  then obtain u where "r = u @ r'" by blast
  with assms Some show ?thesis by (rule fenced_body_suffix_None)
qed

lemma match_fence_closed: "match_fence s = fenced_body s"
proof (induction s)
  case Nil
  then show ?case by (simp add: fenced_body_def)
next
  case (Cons c cs)
  show ?case
  proof (cases "prefix ticks (c # cs)")
    case False
    then have "fenced_body (c # cs) = fenced_body cs" by (simp add: fenced_body_def)
    with False Cons.IH show ?thesis by simp
  next
    case True
    then obtain r where r: "c # cs = ticks @ r" by (auto simp: prefix_def)
    then have d: "drop 3 (c # cs) = r" and cs: "cs = CHR 0x60 # CHR 0x60 # r"
      by (simp_all add: ticks_def)
    from True d have fb: "fenced_body (c # cs) = opt_json r"
      by (simp add: fenced_body_def opt_json_closed del: drop_Suc_Cons)
    show ?thesis
    proof (cases "opt_json r")
      case (Some b)
      with True d fb show ?thesis by (simp del: drop_Suc_Cons)
    next
      case None
      then have "before_ticks (dropWhile is_space (strip_tag r)) = None"
        by (simp add: opt_json_closed)
      then have "before_ticks (strip_tag r) = None" by (rule before_ticks_dropWhile_None)
      then have "before_ticks r = None" by (rule strip_tag_None)
      then have "fenced_body cs = None" unfolding cs by (rule fenced_body_two)
      with True d fb None Cons.IH show ?thesis by (simp del: drop_Suc_Cons)
    qed
  qed
qed

text \<open>
  A block of the shape \<^verbatim>\<open>```\<close>, optional \<^verbatim>\<open>json\<close>, line feed, body, \<^verbatim>\<open>```\<close> is
  found, and its body is what gets parsed (up to trimming), when no backquote stands
  before the block or in its body.
\<close>

lemma after_ticks_first:
  "CHR 0x60 \<notin> set pre \<Longrightarrow> after_ticks (pre @ ticks @ r) = Some r"
proof (induction pre)
  case Nil
  then show ?case by (simp add: ticks_def)
next
  case (Cons c pre)
  then have "\<not> prefix ticks (c # pre @ ticks @ r)" by (auto simp: prefix_ticks_Cons)
  with Cons show ?case by simp
qed

lemma before_ticks_first:
  "CHR 0x60 \<notin> set d \<Longrightarrow> before_ticks (d @ ticks @ post) = Some d"
proof (induction d)
  case Nil
  then show ?case by (simp add: ticks_def)
next
  case (Cons c d)
  then have "\<not> prefix ticks (c # d @ ticks @ post)" by (auto simp: prefix_ticks_Cons)
  with Cons show ?case by simp
qed

lemma dropWhile_space_ticks:
  "dropWhile is_space (b @ ticks @ post) = dropWhile is_space b @ ticks @ post"
proof -
  have "\<not> is_space (CHR 0x60)" by (simp add: is_space_def)
  then show ?thesis by (induction b) (simp_all add: ticks_def)
qed

lemma trim_dropWhile: "trim (dropWhile is_space b) = trim b"
  by (simp add: trim_def)

lemma trim_chop_newline:
  assumes "d = [] \<or> \<not> is_space (hd d)"
  shows "trim (chop_newline d) = trim d"
proof (cases "d \<noteq> [] \<and> last d = nl")
  case False
  then show ?thesis by (auto simp: chop_newline_def)
next
  case True
  then have d: "d = butlast d @ [nl]" by (metis append_butlast_last_id)
  from True assms have h: "\<not> is_space (hd d)" by simp
  have keep: "dropWhile is_space d = d" using True h by (cases d) simp_all
  have keep': "dropWhile is_space (butlast d) = butlast d"
  proof (cases "butlast d")
    case Nil
    then show ?thesis by simp
  next
    case (Cons a as)
    with d have "hd d = a" by (metis hd_append2 list.sel(1) list.distinct(1))
    with h Cons show ?thesis by simp
  qed
  have "rev d = rev (butlast d @ [nl])" by (rule arg_cong[OF d])
  then have rd: "rev d = nl # rev (butlast d)" by simp
  have "dropWhile is_space (nl # rev (butlast d)) = dropWhile is_space (rev (butlast d))"
    by (simp add: nl_space)
  then have "dropWhile is_space (rev d) = dropWhile is_space (rev (butlast d))"
    by (simp only: rd)
  with True keep keep' show ?thesis by (simp add: trim_def chop_newline_def)
qed

lemma fenced_body_of_pattern:
  assumes "CHR 0x60 \<notin> set pre" "CHR 0x60 \<notin> set body" "tag = [] \<or> tag = ''json''"
  shows "map_option trim (fenced_body (pre @ ticks @ tag @ [nl] @ body @ ticks @ post))
         = Some (trim body)"
proof -
  let ?r = "tag @ [nl] @ body @ ticks @ post"
  have a: "after_ticks (pre @ ticks @ ?r) = Some ?r"
    using assms(1) by (rule after_ticks_first)
  have s: "strip_tag ?r = nl # body @ ticks @ post"
    using assms(3) by (auto simp: strip_tag_def nl_def)
  have "dropWhile is_space (nl # body @ ticks @ post) = dropWhile is_space body @ ticks @ post"
    using dropWhile_space_ticks[of body post] by (simp add: nl_space)
  moreover have "CHR 0x60 \<notin> set (dropWhile is_space body)"
    using assms(2) set_dropWhileD by fastforce
  ultimately have b: "before_ticks (dropWhile is_space (strip_tag ?r)) = Some (dropWhile is_space body)"
    using s before_ticks_first by simp
  have "trim (chop_newline (dropWhile is_space body)) = trim (dropWhile is_space body)"
    by (rule trim_chop_newline) (metis hd_dropWhile)
  then have "trim (chop_newline (dropWhile is_space body)) = trim body"
    by (simp add: trim_dropWhile)
  with a b show ?thesis by (simp add: fenced_body_def)
qed

lemma tryParseJSON_closed:
  "tryParseJSON parse v =
     (case v of
        JObj kvs \<Rightarrow> v
      | JArr xs \<Rightarrow> v
      | JStr s \<Rightarrow>
          (if s = [] then JNull
           else case parse s of
                  Some r \<Rightarrow> r
                | None \<Rightarrow>
                    (case fenced_body s of
                       Some body \<Rightarrow> (case parse (trim body) of Some r \<Rightarrow> r | None \<Rightarrow> JNull)
                     | None \<Rightarrow> JNull))
      | _ \<Rightarrow> JNull)"
  unfolding tryParseJSON_def match_fence_closed
  by (cases v) simp_all


lemma fenced_body_not_json: "fenced_body ''not json at all'' = None"
  by (simp add: fenced_body_def ticks_def)

subsection \<open>C5: the case analysis of the decoder\<close>

text \<open>
  C5, as the code has it. For every value: \<^verbatim>\<open>undefined\<close>, \<^verbatim>\<open>null\<close> and the empty string
  yield the failure value \<^verbatim>\<open>null\<close>; an object or an array is returned unchanged; a
  non-empty string is first parsed as a whole and the parse result returned on
  success; otherwise the first fenced block is searched for (\<^verbatim>\<open>```\<close>, an optional
  \<^verbatim>\<open>json\<close> tag, optional white space, the body up to the next \<^verbatim>\<open>```\<close> less one line
  feed before it; the line feeds are optional) and its body, trimmed, is parsed,
  the result returned on success, the failure value on a parse failure or when no
  fenced block exists; booleans and numbers yield the failure value. A block with the
  line feed after the tag is found as such. Decoding \<^verbatim>\<open>not json at all\<close>, which does
  not parse, fails.
\<close>

theorem tryParseJSON_cases:
  "tryParseJSON parse v =
     (case v of
        JObj kvs \<Rightarrow> v
      | JArr xs \<Rightarrow> v
      | JStr s \<Rightarrow>
          (if s = [] then JNull
           else case parse s of
                  Some r \<Rightarrow> r
                | None \<Rightarrow>
                    (case fenced_body s of
                       Some body \<Rightarrow> (case parse (trim body) of Some r \<Rightarrow> r | None \<Rightarrow> JNull)
                     | None \<Rightarrow> JNull))
      | _ \<Rightarrow> JNull)
   \<and> (CHR 0x60 \<notin> set pre \<and> CHR 0x60 \<notin> set body \<and> (tag = [] \<or> tag = ''json'') \<longrightarrow>
        map_option trim (fenced_body (pre @ ticks @ tag @ [nl] @ body @ ticks @ post))
          = Some (trim body))
   \<and> (parse ''not json at all'' = None \<longrightarrow>
        tryParseJSON parse (JStr ''not json at all'') = JNull)"
proof -
  have "parse ''not json at all'' = None \<longrightarrow>
        tryParseJSON parse (JStr ''not json at all'') = JNull"
    by (simp add: tryParseJSON_closed fenced_body_not_json)
  with tryParseJSON_closed fenced_body_of_pattern show ?thesis by blast
qed

theorem tryParseJSON_cases_witness:
  "parse_examples ''not json at all'' = None
   \<and> tryParseJSON parse_examples (JStr ''not json at all'') = JNull
   \<and> tryParseJSON parse_examples (JStr ''```json\<newline>{\"message\":\"x\"}\<newline>```'')
       = JObj [(''message'', JStr ''x'')]
   \<and> tryParseJSON parse_examples (JStr ''{\"message\":\"x\"}'') = JObj [(''message'', JStr ''x'')]
   \<and> map_option trim (fenced_body ''```json\<newline>{\"message\":\"x\"}\<newline>```'')
       = Some ''{\"message\":\"x\"}''"
proof -
  have n: "parse_examples ''not json at all'' = None"
    by (simp add: parse_examples_def)
  have f: "fenced_body ''```json\<newline>{\"message\":\"x\"}\<newline>```'' = Some ''{\"message\":\"x\"}''"
    by (simp add: fenced_body_def ticks_def strip_tag_def is_space_def chop_newline_def nl_def)
  have t: "trim ''{\"message\":\"x\"}'' = ''{\"message\":\"x\"}''"
    by (simp add: trim_def is_space_def)
  have p: "parse_examples ''```json\<newline>{\"message\":\"x\"}\<newline>```'' = None"
    by (simp add: parse_examples_def)
  have q: "parse_examples ''{\"message\":\"x\"}'' = Some (JObj [(''message'', JStr ''x'')])"
    by (simp add: parse_examples_def)
  have e: "''```json\<newline>{\"message\":\"x\"}\<newline>```''
           = [] @ ticks @ ''json'' @ [nl] @ ''{\"message\":\"x\"}\<newline>'' @ ticks @ []"
    by (simp add: ticks_def nl_def)
  have b: "CHR 0x60 \<notin> set [] \<and> CHR 0x60 \<notin> set ''{\"message\":\"x\"}\<newline>''"
    by simp
  have tb: "trim ''{\"message\":\"x\"}\<newline>'' = ''{\"message\":\"x\"}''"
    by (simp add: trim_def is_space_def)
  have "map_option trim (fenced_body ''```json\<newline>{\"message\":\"x\"}\<newline>```'')
          = Some ''{\"message\":\"x\"}''"
    using b tb
      tryParseJSON_cases [where pre = "[]" and tag = "''json''"
        and body = "''{\"message\":\"x\"}\<newline>''" and post = "[]"]
    by (simp only: e [symmetric]) simp
  then show ?thesis
    using n tryParseJSON_cases [of parse_examples "JStr ''not json at all''"]
      tryParseJSON_cases [of parse_examples "JStr ''```json\<newline>{\"message\":\"x\"}\<newline>```''"]
      tryParseJSON_cases [of parse_examples "JStr ''{\"message\":\"x\"}''"]
    by (simp add: f t p q)
qed

text \<open>
  The claim as written names a line feed after the tag, and failure when no such
  block exists. The text \<^verbatim>\<open>```{"message":"x"}```\<close> holds no line feed at all and does
  not parse as a whole, yet it decodes to the record of its body.
\<close>

theorem decode_fence_without_newline_counterexample:
  "nl \<notin> set ''```{\"message\":\"x\"}```''
   \<and> parse_examples ''```{\"message\":\"x\"}```'' = None
   \<and> tryParseJSON parse_examples (JStr ''```{\"message\":\"x\"}```'') = JObj [(''message'', JStr ''x'')]"
proof -
  have m: "match_fence ''```{\"message\":\"x\"}```'' = Some ''{\"message\":\"x\"}''"
    by (simp add: ticks_def opt_json_def is_space_def nl_def)
  have t: "trim ''{\"message\":\"x\"}'' = ''{\"message\":\"x\"}''"
    by (simp add: trim_def is_space_def)
  have p: "parse_examples ''```{\"message\":\"x\"}```'' = None"
    by (simp add: parse_examples_def)
  have q: "parse_examples ''{\"message\":\"x\"}'' = Some (JObj [(''message'', JStr ''x'')])"
    by (simp add: parse_examples_def)
  have n: "nl \<notin> set ''```{\"message\":\"x\"}```''"
    by (simp add: nl_def)
  have "tryParseJSON parse_examples (JStr ''```{\"message\":\"x\"}```'') = JObj [(''message'', JStr ''x'')]"
    unfolding tryParseJSON_def
    by (simp only: m t p q truthy.simps typeof_object.simps jsval.case option.case
          if_True if_False simp_thms list.distinct)
  with n p show ?thesis by blast
qed

section \<open>Properties of the resolver\<close>

text \<open>The resolver with each acceptance test under its name.\<close>

lemma parseAgentResponse_folded:
  "parseAgentResponse parse result =
     (if \<not> truthy result then JNull
      else if accepts4 (tryParseJSON parse (js_get (js_get result ''response'') ''result''))
      then tryParseJSON parse (js_get (js_get result ''response'') ''result'')
      else if truthy (js_get (js_get (js_get result ''response'') ''result'') ''text'') \<and>
              accepts3 (tryParseJSON parse (js_get (js_get (js_get result ''response'') ''result'') ''text''))
      then tryParseJSON parse (js_get (js_get (js_get result ''response'') ''result'') ''text'')
      else if truthy (js_get result ''raw_response'') \<and>
              truthy (tryParseJSON parse (js_get result ''raw_response'')) \<and>
              accepts3 (if typeof_string (js_get (tryParseJSON parse (js_get result ''raw_response'')) ''response'')
                        then tryParseJSON parse (js_get (tryParseJSON parse (js_get result ''raw_response'')) ''response'')
                        else js_get (tryParseJSON parse (js_get result ''raw_response'')) ''response'')
      then (if typeof_string (js_get (tryParseJSON parse (js_get result ''raw_response'')) ''response'')
            then tryParseJSON parse (js_get (tryParseJSON parse (js_get result ''raw_response'')) ''response'')
            else js_get (tryParseJSON parse (js_get result ''raw_response'')) ''response'')
      else if truthy (js_get result ''raw_response'') \<and>
              truthy (tryParseJSON parse (js_get result ''raw_response'')) \<and>
              accepts3 (tryParseJSON parse (js_get result ''raw_response''))
      then tryParseJSON parse (js_get result ''raw_response'')
      else if accepts3 (tryParseJSON parse (js_get result ''response''))
      then tryParseJSON parse (js_get result ''response'')
      else if truthy (js_get (js_get result ''response'') ''message'') \<and>
              typeof_string (js_get (js_get result ''response'') ''message'')
      then (if accepts2 (tryParseJSON parse (js_get (js_get result ''response'') ''message''))
            then tryParseJSON parse (js_get (js_get result ''response'') ''message'')
            else JObj [(''message'', js_get (js_get result ''response'') ''message'')])
      else if accepts3 result then result
      else JNull)"
  unfolding parseAgentResponse_def Let_def accepts4_def accepts3_def accepts2_def
  by (rule refl)

lemma parseAgentResponse_strategies:
  "parseAgentResponse parse result =
     (if truthy result
      then (case first_success
                   [strategy1 parse result, strategy2 parse result, strategy3 parse result,
                    strategy4 parse result, strategy5 parse result, strategy6 result] of
              Some d \<Rightarrow> d
            | None \<Rightarrow> JNull)
      else JNull)"
  unfolding parseAgentResponse_folded strategy1_def strategy2_def strategy3_def strategy4_def
    strategy5_def strategy6_def Let_def
  by (simp del: js_get.simps truthy.simps typeof_object.simps typeof_string.simps)

lemma truthy_key_record: "truthy (js_get d k) \<Longrightarrow> is_record d"
  by (cases d) simp_all

lemma accepts4_record: "accepts4 d \<Longrightarrow> is_record d \<and> \<not> no_truthy_key d"
  by (auto simp: accepts4_def no_truthy_key_def dest: truthy_key_record)

lemma accepts3_record: "accepts3 d \<Longrightarrow> is_record d \<and> \<not> no_truthy_key d"
  by (auto simp: accepts3_def no_truthy_key_def dest: truthy_key_record)

lemma accepts2_record: "accepts2 d \<Longrightarrow> is_record d \<and> \<not> no_truthy_key d"
  by (auto simp: accepts2_def no_truthy_key_def dest: truthy_key_record)

lemma is_record_object: "is_record d \<Longrightarrow> truthy d \<and> typeof_object d"
  by (cases d) simp_all

subsection \<open>C3: fixed order, first success wins, and what every strategy accepts\<close>

text \<open>
  C3, as the code has it. The resolver applies its six strategies in a fixed order and
  the first one that returns decides the result. Every acceptance test holds only of a
  structured record with at least one recognized key (\<^verbatim>\<open>message\<close>, \<^verbatim>\<open>metrics\<close>,
  \<^verbatim>\<open>lowStockAlerts\<close>, \<^verbatim>\<open>inventoryItems\<close>) bound to a truthy value. A record with a
  truthy \<^verbatim>\<open>metrics\<close> or \<^verbatim>\<open>lowStockAlerts\<close> passes the test of every strategy; one with
  a truthy \<^verbatim>\<open>message\<close> passes the tests of strategies 1, 2, 3, 4 and 6; one with a truthy
  \<^verbatim>\<open>inventoryItems\<close> passes the test of strategy 1.
\<close>

theorem resolver_first_success:
  "parseAgentResponse parse result =
     (if truthy result
      then (case first_success
                   [strategy1 parse result, strategy2 parse result, strategy3 parse result,
                    strategy4 parse result, strategy5 parse result, strategy6 result] of
              Some d \<Rightarrow> d
            | None \<Rightarrow> JNull)
      else JNull)
   \<and> (accepts4 d \<or> accepts3 d \<or> accepts2 d \<longrightarrow> is_record d \<and> \<not> no_truthy_key d)
   \<and> (is_record d \<and> (truthy (js_get d ''metrics'') \<or> truthy (js_get d ''lowStockAlerts''))
        \<longrightarrow> accepts4 d \<and> accepts3 d \<and> accepts2 d)
   \<and> (is_record d \<and> truthy (js_get d ''message'') \<longrightarrow> accepts4 d \<and> accepts3 d)
   \<and> (is_record d \<and> truthy (js_get d ''inventoryItems'') \<longrightarrow> accepts4 d)"
proof -
  have a: "accepts4 d \<or> accepts3 d \<or> accepts2 d \<longrightarrow> is_record d \<and> \<not> no_truthy_key d"
    using accepts4_record accepts3_record accepts2_record by blast
  have b: "is_record d \<and> (truthy (js_get d ''metrics'') \<or> truthy (js_get d ''lowStockAlerts''))
        \<longrightarrow> accepts4 d \<and> accepts3 d \<and> accepts2 d"
    using is_record_object[of d] by (auto simp: accepts4_def accepts3_def accepts2_def)
  have c: "is_record d \<and> truthy (js_get d ''message'') \<longrightarrow> accepts4 d \<and> accepts3 d"
    using is_record_object[of d] by (auto simp: accepts4_def accepts3_def)
  have e: "is_record d \<and> truthy (js_get d ''inventoryItems'') \<longrightarrow> accepts4 d"
    using is_record_object[of d] by (auto simp: accepts4_def)
  from parseAgentResponse_strategies a b c e show ?thesis by blast
qed

theorem resolver_first_success_witness:
  "accepts4 (JObj [(''inventoryItems'', JArr [JObj [(''product'', JStr ''Mat'')]])])
   \<and> parseAgentResponse parse_examples
        (JObj [(''response'', JObj [(''result'',
           JObj [(''inventoryItems'', JArr [JObj [(''product'', JStr ''Mat'')]])])])])
      = JObj [(''inventoryItems'', JArr [JObj [(''product'', JStr ''Mat'')]])]"
proof -
  let ?d = "JObj [(''inventoryItems'', JArr [JObj [(''product'', JStr ''Mat'')]])]"
  let ?e = "JObj [(''response'', JObj [(''result'', ?d)])]"
  have r: "is_record ?d \<and> truthy (js_get ?d ''inventoryItems'')" by simp
  with resolver_first_success [of parse_examples ?e ?d] have a: "accepts4 ?d" by blast
  then have "strategy1 parse_examples ?e = Some ?d"
    by (simp add: strategy1_def tryParseJSON_def)
  with resolver_first_success [of parse_examples ?e ?d] a show ?thesis by simp
qed

text \<open>
  The claim as written fails at strategy 2: the decoded \<^verbatim>\<open>text\<close> field is a record
  whose only recognized key is \<^verbatim>\<open>inventoryItems\<close>, strategy 2 does not accept it, and
  the resolver returns \<^verbatim>\<open>null\<close>. It also fails at strategy 1 for a record that has all
  four keys, each bound to a falsy value.
\<close>

theorem acceptance_tests_differ_counterexample:
  "tryParseJSON parse_examples
      (js_get (js_get (js_get envelope_text_inventory ''response'') ''result'') ''text'')
     = JObj [(''inventoryItems'', JArr [JObj [(''product'', JStr ''Mat'')]])]
   \<and> strategy2 parse_examples envelope_text_inventory = None
   \<and> parseAgentResponse parse_examples envelope_text_inventory = JNull
   \<and> tryParseJSON parse_examples (js_get (js_get envelope_falsy_keys ''response'') ''result'')
     = JObj [(''message'', JStr []), (''metrics'', JNum 0), (''lowStockAlerts'', JNull),
             (''inventoryItems'', JBool False)]
   \<and> strategy1 parse_examples envelope_falsy_keys = None"
proof -
  have f: "tryParseJSON parse_examples (js_get (js_get envelope_falsy_keys ''response'') ''result'')
     = JObj [(''message'', JStr []), (''metrics'', JNum 0), (''lowStockAlerts'', JNull),
             (''inventoryItems'', JBool False)]"
    by (simp add: envelope_falsy_keys_def tryParseJSON_def)
  have f1: "strategy1 parse_examples envelope_falsy_keys = None"
    by (simp add: strategy1_def f accepts4_def)
  have t: "tryParseJSON parse_examples
      (js_get (js_get (js_get envelope_text_inventory ''response'') ''result'') ''text'')
     = JObj [(''inventoryItems'', JArr [JObj [(''product'', JStr ''Mat'')]])]"
    by (simp add: envelope_text_inventory_def tryParseJSON_def)
  have s1: "strategy1 parse_examples envelope_text_inventory = None"
    by (simp add: strategy1_def envelope_text_inventory_def tryParseJSON_def accepts4_def)
  have s2: "strategy2 parse_examples envelope_text_inventory = None"
    by (simp add: strategy2_def envelope_text_inventory_def tryParseJSON_def accepts3_def)
  have s3: "strategy3 parse_examples envelope_text_inventory = None"
    by (simp add: strategy3_def envelope_text_inventory_def)
  have s4: "strategy4 parse_examples envelope_text_inventory = None"
    by (simp add: strategy4_def envelope_text_inventory_def tryParseJSON_def accepts3_def)
  have s5: "strategy5 parse_examples envelope_text_inventory = None"
    by (simp add: strategy5_def envelope_text_inventory_def)
  have s6: "strategy6 envelope_text_inventory = None"
    by (simp add: strategy6_def envelope_text_inventory_def accepts3_def)
  have "truthy envelope_text_inventory" by (simp add: envelope_text_inventory_def)
  then have "parseAgentResponse parse_examples envelope_text_inventory = JNull"
    by (simp add: parseAgentResponse_strategies s1 s2 s3 s4 s5 s6)
  with t s2 f f1 show ?thesis by blast
qed

lemma no_truthy_key_rejected:
  "no_truthy_key d \<Longrightarrow> \<not> accepts4 d \<and> \<not> accepts3 d \<and> \<not> accepts2 d"
  by (auto simp: no_truthy_key_def accepts4_def accepts3_def accepts2_def)

lemma tryParseJSON_record: "is_record v \<Longrightarrow> tryParseJSON parse v = v"
  by (cases v) (simp_all add: tryParseJSON_def)

lemma strategy4_message:
  assumes "truthy (js_get (js_get result ''response'') ''message'')"
  shows "strategy4 parse result = Some (js_get result ''response'')"
proof -
  from assms have r: "is_record (js_get result ''response'')" by (rule truthy_key_record)
  then have "tryParseJSON parse (js_get result ''response'') = js_get result ''response''"
    by (rule tryParseJSON_record)
  moreover from r assms have "accepts3 (js_get result ''response'')"
    using is_record_object by (auto simp: accepts3_def)
  ultimately show ?thesis by (simp add: strategy4_def Let_def)
qed

lemma all_rejected_null:
  assumes "list_all no_truthy_key (candidates parse result)"
  shows "parseAgentResponse parse result = JNull"
proof (cases "truthy result")
  case False
  then show ?thesis by (simp add: parseAgentResponse_def)
next
  case True
  from assms have c1: "no_truthy_key (tryParseJSON parse (js_get (js_get result ''response'') ''result''))"
    and c2: "no_truthy_key (tryParseJSON parse (js_get (js_get (js_get result ''response'') ''result'') ''text''))"
    and c3: "no_truthy_key (if typeof_string (js_get (tryParseJSON parse (js_get result ''raw_response'')) ''response'')
                        then tryParseJSON parse (js_get (tryParseJSON parse (js_get result ''raw_response'')) ''response'')
                        else js_get (tryParseJSON parse (js_get result ''raw_response'')) ''response'')"
    and c3': "no_truthy_key (tryParseJSON parse (js_get result ''raw_response''))"
    and c4: "no_truthy_key (tryParseJSON parse (js_get result ''response''))"
    and c6: "no_truthy_key result"
    by (simp_all add: candidates_def Let_def del: js_get.simps)
  have s1: "strategy1 parse result = None"
    using no_truthy_key_rejected[OF c1] by (simp add: strategy1_def Let_def)
  have s2: "strategy2 parse result = None"
    using no_truthy_key_rejected[OF c2] by (simp add: strategy2_def Let_def)
  have s3: "strategy3 parse result = None"
    using no_truthy_key_rejected[OF c3] no_truthy_key_rejected[OF c3']
    by (simp add: strategy3_def Let_def)
  have s4: "strategy4 parse result = None"
    using no_truthy_key_rejected[OF c4] by (simp add: strategy4_def Let_def)
  have "\<not> truthy (js_get (js_get result ''response'') ''message'')"
    using strategy4_message[of result parse] s4 by auto
  then have s5: "strategy5 parse result = None"
    by (simp add: strategy5_def Let_def)
  have s6: "strategy6 result = None"
    using no_truthy_key_rejected[OF c6] by (simp add: strategy6_def)
  from True show ?thesis
    by (simp add: parseAgentResponse_strategies s1 s2 s3 s4 s5 s6)
qed

subsection \<open>C10: acceptance tests truthiness, not key presence\<close>

text \<open>
  C10. A decoded candidate in which each of \<^verbatim>\<open>message\<close>, \<^verbatim>\<open>metrics\<close>,
  \<^verbatim>\<open>lowStockAlerts\<close>, \<^verbatim>\<open>inventoryItems\<close> is absent or bound to a falsy value fails the
  acceptance test of every strategy; and for every envelope, when every candidate the
  strategies examine is such a value, the resolver returns \<^verbatim>\<open>null\<close>, recognized keys
  present or not.
\<close>

theorem falsy_keys_rejected:
  "(no_truthy_key d \<longrightarrow> \<not> accepts4 d \<and> \<not> accepts3 d \<and> \<not> accepts2 d)
   \<and> (list_all no_truthy_key (candidates parse result) \<longrightarrow>
        parseAgentResponse parse result = JNull)"
  using no_truthy_key_rejected all_rejected_null by blast

theorem falsy_keys_rejected_witness:
  "no_truthy_key (js_get (js_get envelope_falsy_keys ''response'') ''result'')
   \<and> js_get (js_get (js_get envelope_falsy_keys ''response'') ''result'') ''message'' = JStr []
   \<and> \<not> accepts4 (js_get (js_get envelope_falsy_keys ''response'') ''result'')
   \<and> list_all no_truthy_key (candidates parse_examples envelope_falsy_keys)
   \<and> parseAgentResponse parse_examples envelope_falsy_keys = JNull"
proof -
  have n: "no_truthy_key (js_get (js_get envelope_falsy_keys ''response'') ''result'')"
    by (simp add: envelope_falsy_keys_def no_truthy_key_def)
  have c: "list_all no_truthy_key (candidates parse_examples envelope_falsy_keys)"
    by (simp add: candidates_def envelope_falsy_keys_def no_truthy_key_def tryParseJSON_def)
  have m: "js_get (js_get (js_get envelope_falsy_keys ''response'') ''result'') ''message'' = JStr []"
    by (simp add: envelope_falsy_keys_def)
  from n c m
    falsy_keys_rejected [of "js_get (js_get envelope_falsy_keys ''response'') ''result''"
      parse_examples envelope_falsy_keys]
  show ?thesis by blast
qed

lemma js_get_str_record: "js_get v k = JStr m \<Longrightarrow> is_record v"
  by (cases v) simp_all

text \<open>Whenever strategy 5 would return, strategy 4 has returned before it.\<close>

lemma strategy5_unreachable:
  assumes "strategy5 parse result \<noteq> None"
  shows "strategy4 parse result \<noteq> None"
proof -
  from assms have "truthy (js_get (js_get result ''response'') ''message'')"
    by (auto simp: strategy5_def Let_def split: if_splits)
  then show ?thesis using strategy4_message[of result parse] by simp
qed

text \<open>
  An envelope whose \<^verbatim>\<open>response.message\<close> is a non-empty string is resolved by strategy 4
  at the latest, with the \<^verbatim>\<open>response\<close> record itself.
\<close>

lemma response_message_resolved_by_strategy4:
  "(js_get (js_get result ''response'') ''message'' = JStr m \<and> m \<noteq> [] \<longrightarrow>
      strategy4 parse result = Some (js_get result ''response'')
      \<and> first_success [strategy1 parse result, strategy2 parse result, strategy3 parse result,
                        strategy4 parse result] \<noteq> None
      \<and> (strategy1 parse result = None \<and> strategy2 parse result = None \<and>
          strategy3 parse result = None \<longrightarrow>
            parseAgentResponse parse result = js_get result ''response''
            \<and> js_get (parseAgentResponse parse result) ''message'' = JStr m))
   \<and> parseAgentResponse parse envelope_top_sellers
       = JObj [(''message'', JStr ''Here are your top sellers'')]"
proof -
  have general: "strategy4 parse result = Some (js_get result ''response'')
      \<and> first_success [strategy1 parse result, strategy2 parse result, strategy3 parse result,
                        strategy4 parse result] \<noteq> None
      \<and> (strategy1 parse result = None \<and> strategy2 parse result = None \<and>
          strategy3 parse result = None \<longrightarrow>
            parseAgentResponse parse result = js_get result ''response''
            \<and> js_get (parseAgentResponse parse result) ''message'' = JStr m)"
    if h: "js_get (js_get result ''response'') ''message'' = JStr m" "m \<noteq> []"
  proof -
    from h have t: "truthy (js_get (js_get result ''response'') ''message'')" by simp
    then have s4: "strategy4 parse result = Some (js_get result ''response'')"
      by (rule strategy4_message)
    have fs: "first_success [strategy1 parse result, strategy2 parse result,
                 strategy3 parse result, strategy4 parse result] \<noteq> None"
      using s4
      by (cases "strategy1 parse result"; cases "strategy2 parse result";
          cases "strategy3 parse result") simp_all
    from h(1) have "is_record (js_get result ''response'')" by (rule js_get_str_record)
    then have "js_get result ''response'' \<noteq> JUndefined" by auto
    then have "is_record result" by (cases result) simp_all
    then have tr: "truthy result" by (simp add: is_record_object)
    have "parseAgentResponse parse result = js_get result ''response''"
      if "strategy1 parse result = None" "strategy2 parse result = None"
         "strategy3 parse result = None"
      using that s4 tr by (simp add: parseAgentResponse_strategies)
    with s4 fs h(1) show ?thesis by simp
  qed
  have ex: "parseAgentResponse parse envelope_top_sellers
       = JObj [(''message'', JStr ''Here are your top sellers'')]"
  proof -
    have "strategy1 parse envelope_top_sellers = None"
      by (simp add: strategy1_def envelope_top_sellers_def tryParseJSON_def accepts4_def)
    moreover have "strategy2 parse envelope_top_sellers = None"
      by (simp add: strategy2_def envelope_top_sellers_def)
    moreover have "strategy3 parse envelope_top_sellers = None"
      by (simp add: strategy3_def envelope_top_sellers_def)
    moreover have "strategy4 parse envelope_top_sellers
       = Some (JObj [(''message'', JStr ''Here are your top sellers'')])"
      by (simp add: strategy4_def envelope_top_sellers_def tryParseJSON_def accepts3_def)
    moreover have "truthy envelope_top_sellers" by (simp add: envelope_top_sellers_def)
    ultimately show ?thesis by (simp add: parseAgentResponse_strategies)
  qed
  from general ex show ?thesis by blast
qed

subsection \<open>C6: the synthesis of strategy 5 is never reached\<close>


section \<open>Properties of the message extractor\<close>

lemma resolve_empty_envelope: "parseAgentResponse parse (JObj []) = JNull"
  by (simp add: parseAgentResponse_folded tryParseJSON_def accepts4_def accepts3_def)

lemma extractMessage_empty_envelope:
  "extractMessageFromResult parse stringify (JObj []) = JStr ''Response received. Dashboard updated.''"
  by (simp add: extractMessageFromResult_def resolve_empty_envelope)

lemma extractMessage_truthy:
  assumes "\<And>v. truthy v \<Longrightarrow> \<not> typeof_string v \<Longrightarrow> stringify v \<noteq> []"
  shows "truthy (extractMessageFromResult parse stringify result)"
  using assms by (simp add: extractMessageFromResult_def Let_def del: js_get.simps)

lemma extractMessage_never_empty:
  assumes "\<And>v. truthy v \<Longrightarrow> \<not> typeof_string v \<Longrightarrow> stringify v \<noteq> []"
  shows "extractMessageFromResult parse stringify result \<noteq> JStr []"
proof
  assume "extractMessageFromResult parse stringify result = JStr []"
  moreover have "truthy (extractMessageFromResult parse stringify result)"
    using assms by (rule extractMessage_truthy)
  ultimately show False by simp
qed

subsection \<open>C7: the extractor can return a value that is not a string\<close>

text \<open>
  C7 says that the extractor returns a string for every raw envelope. At the envelope
  \<^verbatim>\<open>{response:{message:42}}\<close> the resolver accepts the \<^verbatim>\<open>response\<close> record for its truthy
  \<^verbatim>\<open>message\<close>, and the extractor returns that field as it is: the number 42. (The
  branch for \<^verbatim>\<open>result.text\<close> does turn a non-string into text; the branches for
  \<^verbatim>\<open>message\<close> do not.)
\<close>

theorem extractMessage_returns_number:
  "extractMessageFromResult parse stringify envelope_numeric_message = JNum 42"
proof -
  have "strategy1 parse envelope_numeric_message = None"
    by (simp add: strategy1_def envelope_numeric_message_def tryParseJSON_def accepts4_def)
  moreover have "strategy2 parse envelope_numeric_message = None"
    by (simp add: strategy2_def envelope_numeric_message_def)
  moreover have "strategy3 parse envelope_numeric_message = None"
    by (simp add: strategy3_def envelope_numeric_message_def)
  moreover have "strategy4 parse envelope_numeric_message = Some (JObj [(''message'', JNum 42)])"
    by (simp add: strategy4_def envelope_numeric_message_def tryParseJSON_def accepts3_def)
  moreover have "truthy envelope_numeric_message" by (simp add: envelope_numeric_message_def)
  ultimately have "parseAgentResponse parse envelope_numeric_message = JObj [(''message'', JNum 42)]"
    by (simp add: parseAgentResponse_strategies)
  then show ?thesis by (simp add: extractMessageFromResult_def)
qed

section \<open>Properties of the state store\<close>




lemma parseAgentResponse_null_or_record:
  "parseAgentResponse parse result = JNull \<or> is_record (parseAgentResponse parse result)"
proof (cases "truthy result")
  case False
  then show ?thesis by (simp add: parseAgentResponse_def)
next
  case True
  have s1: "strategy1 parse result = Some d \<Longrightarrow> is_record d" for d
    using accepts4_record by (auto simp: strategy1_def Let_def split: if_splits)
  have s2: "strategy2 parse result = Some d \<Longrightarrow> is_record d" for d
    using accepts3_record by (auto simp: strategy2_def Let_def split: if_splits)
  have s3: "strategy3 parse result = Some d \<Longrightarrow> is_record d" for d
    using accepts3_record by (auto simp: strategy3_def Let_def split: if_splits)
  have s4: "strategy4 parse result = Some d \<Longrightarrow> is_record d" for d
    using accepts3_record by (auto simp: strategy4_def Let_def split: if_splits)
  have s5: "strategy5 parse result = Some d \<Longrightarrow> is_record d" for d
    using accepts2_record by (auto simp: strategy5_def Let_def split: if_splits)
  have s6: "strategy6 result = Some d \<Longrightarrow> is_record d" for d
    using accepts3_record by (auto simp: strategy6_def split: if_splits)
  show ?thesis
    using True s1 s2 s3 s4 s5 s6
    by (cases "strategy1 parse result"; cases "strategy2 parse result";
        cases "strategy3 parse result"; cases "strategy4 parse result";
        cases "strategy5 parse result"; cases "strategy6 result")
       (simp_all add: parseAgentResponse_strategies)
qed

lemma parseAgentResponse_falsy_null:
  "\<not> truthy (parseAgentResponse parse result) \<longleftrightarrow> parseAgentResponse parse result = JNull"
  using parseAgentResponse_null_or_record[of parse result] is_record_object by auto



lemma sendChat_start_agentData:
  "sendChat_start st now = Some (msg, st') \<Longrightarrow>
     agentData st' = agentData st \<and> msg = trim (chatInput st)
     \<and> chatMessages st' = chatMessages st @ [\<lparr>role = User, content = JStr msg, timestamp = now\<rparr>]"
  by (auto simp: sendChat_start_def Let_def split: if_splits)











lemma sendChat_settle_appends:
  "\<exists>m. chatMessages (sendChat_settle parse stringify st outcome now) = chatMessages st @ [m]"
  by (cases outcome) (simp_all add: sendChat_settle_def Let_def del: js_get.simps)




subsection \<open>C4: every failure path is fail-static\<close>




lemma resolve_message_only:
  "parseAgentResponse parse
     (JObj [(''success'', JBool True), (''response'', JObj [(''message'', JStr ''ok'')])])
   = JObj [(''message'', JStr ''ok'')]"
  by (simp add: parseAgentResponse_folded tryParseJSON_def accepts4_def accepts3_def)

text \<open>
  A successful chat send combines the resolved snapshot into the stored one by the
  merge of lines 459--470.
\<close>

lemma sendChat_settle_merges:
  assumes "truthy (js_get (JObj props) ''success'')"
  shows "agentData (sendChat_settle parse stringify st (Resolved props) now)
         = mergeSnapshot (agentData st) (parseAgentResponse parse (JObj props))"
  using assms
  by (simp add: sendChat_settle_def mergeSnapshot_def Let_def del: js_get.simps)

lemma sendChat_merge_example:
  "js_get (agentData (sendChat_settle parse stringify state_with_inventory outcome_message_only now))
      ''inventoryItems'' = JArr [JObj [(''product'', JStr ''Mat'')]]
   \<and> js_get (agentData (sendChat_settle parse stringify state_with_inventory outcome_message_only now))
      ''message'' = JStr ''ok''"
proof -
  have "agentData (sendChat_settle parse stringify state_with_inventory outcome_message_only now)
        = mergeSnapshot (agentData state_with_inventory) (JObj [(''message'', JStr ''ok'')])"
    unfolding outcome_message_only_def
    by (subst sendChat_settle_merges) (simp_all add: resolve_message_only)
  then show ?thesis
    by (simp add: merge_inventoryItems merge_message state_with_inventory_def initial_state_def)
qed

subsection \<open>C2: a successful dashboard fetch replaces the stored snapshot\<close>

text \<open>
  C2 says that every successful agent call, the dashboard fetch as well as a chat send,
  merges the resolved snapshot into the stored one, so that a field the resolved
  snapshot lacks keeps its stored value. For the chat send this is
  \<open>sendChat_settle_merges\<close>. The dashboard fetch stores the resolved snapshot in place
  of the old one: with one inventory item stored, a successful refresh whose reply
  carries a message only leaves a snapshot without \<^verbatim>\<open>inventoryItems\<close>.
\<close>

theorem refresh_replaces_snapshot:
  "js_get (agentData state_with_inventory) ''inventoryItems''
     = JArr [JObj [(''product'', JStr ''Mat'')]]
   \<and> agentData (fetchDashboard parse state_with_inventory outcome_message_only now)
     = JObj [(''message'', JStr ''ok'')]
   \<and> js_get (agentData (fetchDashboard parse state_with_inventory outcome_message_only now))
        ''inventoryItems'' = JUndefined"
  by (simp add: fetchDashboard_def fetchDashboard_start_def fetchDashboard_settle_def
        state_with_inventory_def initial_state_def outcome_message_only_def
        resolve_message_only)

text \<open>The chat send never changes a message already in the transcript.\<close>

lemma sendChat_append_only:
  "prefix (chatMessages st) (chatMessages (sendChat parse stringify st call now now'))"
proof (cases "sendChat_start st now")
  case None
  then show ?thesis by (simp add: sendChat_def)
next
  case (Some p)
  obtain msg st' where p: "p = (msg, st')" by (cases p)
  with Some have "prefix (chatMessages st) (chatMessages st')"
    using sendChat_start_agentData[of st now msg st'] by simp
  moreover have "prefix (chatMessages st') (chatMessages (sendChat_settle parse stringify st' (call msg) now'))"
    using sendChat_settle_appends[of parse stringify st' "call msg" now'] by auto
  ultimately show ?thesis using Some p by (auto simp: sendChat_def)
qed

subsection \<open>C9: a successful dashboard fetch replaces the transcript\<close>

text \<open>
  C9 says that every operation leaves the messages already in the transcript in
  place and only appends. For the chat send this is \<open>sendChat_append_only\<close>, and a
  failed fetch leaves the transcript as it was (C4). A successful dashboard fetch whose
  snapshot has a message stores a transcript of that one message: with one user
  message in the transcript, the refresh leaves the agent's message alone.
\<close>

theorem refresh_drops_transcript:
  "chatMessages state_with_inventory = [\<lparr>role = User, content = JStr ''hi'', timestamp = 1\<rparr>]
   \<and> chatMessages (fetchDashboard parse state_with_inventory outcome_message_only now)
     = [\<lparr>role = Agent, content = JStr ''ok'', timestamp = now\<rparr>]
   \<and> \<not> prefix (chatMessages state_with_inventory)
          (chatMessages (fetchDashboard parse state_with_inventory outcome_message_only now))"
  by (simp add: fetchDashboard_def fetchDashboard_start_def fetchDashboard_settle_def
        state_with_inventory_def initial_state_def outcome_message_only_def
        resolve_message_only)

end
